theory Spec2Isabelle
  imports Complex_Main
begin

section \<open>Configuration (config.py)\<close>

text \<open>
  The class \<open>Config\<close> is a namespace of constants. Python's unbounded integers are
  \<open>int\<close>. The two float literals \<open>0.3\<close> and \<open>0.1\<close> are read as the decimal numbers they
  are written as; no arithmetic is done on them in the code modelled here.
\<close>

definition MAX_FILE_SIZE :: int where
  "MAX_FILE_SIZE = 200 * 1024 * 1024"

definition MAX_BATCH_SIZE :: int where
  "MAX_BATCH_SIZE = 50"

definition OCR_CONFIDENCE_THRESHOLD :: real where
  "OCR_CONFIDENCE_THRESHOLD = 0.3"

definition IMAGE_QUALITY :: int where
  "IMAGE_QUALITY = 95"

definition MAX_IMAGE_DIMENSION :: int where
  "MAX_IMAGE_DIMENSION = 4096"

definition MIN_FONT_SIZE :: int where
  "MIN_FONT_SIZE = 8"

definition MAX_FONT_SIZE :: int where
  "MAX_FONT_SIZE = 200"

definition FONT_SIZE_PADDING :: real where
  "FONT_SIZE_PADDING = 0.1"

definition SUPPORTED_IMAGE_FORMATS :: "string set" where
  "SUPPORTED_IMAGE_FORMATS =
     {''.png'', ''.jpg'', ''.jpeg'', ''.webp'', ''.bmp'', ''.tiff'', ''.gif''}"

definition SUPPORTED_PDF_FORMATS :: "string set" where
  "SUPPORTED_PDF_FORMATS = {''.pdf''}"

definition SUPPORTED_ARCHIVE_FORMATS :: "string set" where
  "SUPPORTED_ARCHIVE_FORMATS = {''.zip'', ''.rar'', ''.cbz'', ''.cbr''}"

definition get_supported_formats :: "string set" where
  "get_supported_formats =
     SUPPORTED_IMAGE_FORMATS \<union> SUPPORTED_PDF_FORMATS \<union> SUPPORTED_ARCHIVE_FORMATS"

text \<open>The value the index page shows: \<open>Config.MAX_FILE_SIZE // (1024 * 1024)\<close>.\<close>

definition max_file_size_mb :: int where
  "max_file_size_mb = MAX_FILE_SIZE div (1024 * 1024)"


section \<open>Strings\<close>

text \<open>
  A Python \<open>str\<close> is modelled as a \<open>string\<close> whose characters are code points;
  the model covers the strings made of code points below 256. \<open>str.lower()\<close> on such a
  code point adds 32 to the ASCII capitals \<open>A..Z\<close> (65..90) and to the Latin-1
  capitals 192..222 other than the multiplication sign 215, and leaves every other one
  alone.
\<close>

definition lower_char :: "char \<Rightarrow> char" where
  "lower_char c =
     (let n = (of_char c :: nat)
      in if (65 \<le> n \<and> n \<le> 90) \<or> (192 \<le> n \<and> n \<le> 222 \<and> n \<noteq> 215)
         then char_of (n + 32) else c)"

definition lower :: "string \<Rightarrow> string" where
  "lower s = map lower_char s"

text \<open>
  \<open>s.rsplit(sep, 1)\<close> for a one-character separator: the list \<open>[s]\<close> when \<open>sep\<close>
  does not occur, otherwise the part before the last \<open>sep\<close> and the part after it.
\<close>

definition rsplit1 :: "char \<Rightarrow> string \<Rightarrow> string list" where
  "rsplit1 sep s =
     (if sep \<in> set s
      then [rev (tl (dropWhile (\<lambda>c. c \<noteq> sep) (rev s))),
            rev (takeWhile (\<lambda>c. c \<noteq> sep) (rev s))]
      else [s])"

text \<open>\<open>str(n)\<close> for a natural number: its decimal digits.\<close>

fun str_nat :: "nat \<Rightarrow> string" where
  "str_nat n =
     (if n < 10 then [''0123456789'' ! n]
      else str_nat (n div 10) @ [''0123456789'' ! (n mod 10)])"

declare str_nat.simps [simp del]


section \<open>The extension allow-list (flask\_app.py, \<open>allowed_file\<close>)\<close>

definition ALLOWED_EXTENSIONS :: "string set" where
  "ALLOWED_EXTENSIONS =
     {''png'', ''jpg'', ''jpeg'', ''gif'', ''bmp'', ''tiff'', ''webp'', ''pdf'',
      ''zip'', ''rar'', ''cbz'', ''cbr''}"

text \<open>
  \<open>'.' in filename and filename.rsplit('.', 1)[1].lower() in ALLOWED_EXTENSIONS\<close>.
  Python's \<open>and\<close> does not evaluate its right operand when the left one is false, so
  the index \<open>[1]\<close> is only read when the split has two parts
  (lemma \<open>rsplit1_length\<close> below).
\<close>

definition allowed_file :: "string \<Rightarrow> bool" where
  "allowed_file filename =
     (if CHR ''.'' \<in> set filename
      then lower (rsplit1 CHR ''.'' filename ! 1) \<in> ALLOWED_EXTENSIONS
      else False)"


section \<open>Data of the pipeline (flask\_app.py)\<close>

text \<open>
  An exception is carried as a value with the text \<open>str(e)\<close> that the handlers put into
  their messages. Every \<open>except\<close> clause of the module catches \<open>Exception\<close>.
\<close>

datatype exn = Exception (message: string)

text \<open>
  A temporary file made by \<open>tempfile.NamedTemporaryFile(delete=False, suffix=...)\<close>:
  a name that no earlier temporary file has (a serial number) and the suffix asked for.
\<close>

datatype path = Tmp (tmp_id: nat) (tmp_suffix: string)

text \<open>What a temporary file holds: nothing yet, the uploaded bytes, or an image saved as PNG.\<close>

datatype 'img content = Empty | Uploaded | Png 'img

text \<open>
  A text region is the dictionary the detector returns, with the keys \<open>'text'\<close>,
  \<open>'bbox'\<close> and, optionally, \<open>'confidence'\<close> (read with \<open>region.get('confidence', 1.0)\<close>).
\<close>

type_synonym bbox = "int \<times> int \<times> int \<times> int"

record region =
  region_text :: string
  region_bbox :: bbox
  region_confidence :: "real option"

text \<open>
  The collaborators of the module: \<open>werkzeug.utils.secure_filename\<close>, the services
  \<open>file_handler\<close>, \<open>text_extractor\<close>, \<open>translator\<close>, \<open>image_processor\<close>,
  \<open>arabic_renderer\<close> and PIL's \<open>Image.save(name, 'PNG')\<close>. Their code is not part of the
  module; each is a parameter. A call reads and changes a state \<open>'w\<close> of their own (the
  network, a rate limiter, a cache, the disk) and either returns a value or raises.
  \<open>extract_images\<close> yields the list of the decoded images (the \<open>'data'\<close> entries).

  Two steps of the handler depend on the request and can raise as well:
  \<open>make_temp\<close> is \<open>tempfile.NamedTemporaryFile(delete=False, suffix=...)\<close> with a suffix
  that carries the uploaded file name (it raises \<open>OSError\<close> when the resulting name is too
  long for the file system), and \<open>write_upload\<close> is \<open>file.save(temp_input.name)\<close>.
\<close>

record ('w, 'img) services =
  secure_filename :: "string \<Rightarrow> string"
  make_temp :: "string \<Rightarrow> 'w \<Rightarrow> (exn + unit) \<times> 'w"
  write_upload :: "'w \<Rightarrow> (exn + unit) \<times> 'w"
  extract_images :: "path \<Rightarrow> string \<Rightarrow> 'w \<Rightarrow> (exn + 'img list) \<times> 'w"
  extract_text :: "'img \<Rightarrow> 'w \<Rightarrow> (exn + region list) \<times> 'w"
  translate :: "string \<Rightarrow> 'w \<Rightarrow> (exn + string) \<times> 'w"
  remove_text :: "'img \<Rightarrow> region list \<Rightarrow> 'w \<Rightarrow> (exn + 'img) \<times> 'w"
  render_text :: "'img \<Rightarrow> region list \<Rightarrow> 'w \<Rightarrow> (exn + 'img) \<times> 'w"
  save_png :: "'img \<Rightarrow> 'w \<Rightarrow> (exn + unit) \<times> 'w"

text \<open>
  The state a request runs in: the collaborators' state, the temporary files on disk
  with their contents, and the serial number of the next temporary file.
\<close>

record ('w, 'img) state =
  world :: 'w
  files :: "path \<rightharpoonup> 'img content"
  next_tmp :: nat

text \<open>
  What the handler returns: \<open>redirect(url_for('index'))\<close> with the messages given to
  \<open>flash\<close> on the way, in order; \<open>send_file(path, as_attachment=True,
  download_name=...)\<close>; or \<open>send_file\<close> of the in-memory ZIP, given by its entries
  (name and data) in the order written, and its \<open>download_name\<close>. Calls of the logger
  have no part in the response and are left out.
\<close>

datatype 'img response =
    Redirect_index "string list"
  | Send_file path string
  | Send_zip "(string \<times> 'img content) list" string


section \<open>File operations\<close>

text \<open>
  A temporary file that has been made: it gets the next serial number and is empty. The
  output files of the loop are made with the fixed suffix \<open>.png\<close>; making them is taken
  to succeed.
\<close>

definition named_temporary_file ::
  "string \<Rightarrow> ('w, 'img) state \<Rightarrow> path \<times> ('w, 'img) state" where
  "named_temporary_file suffix st =
     (Tmp (next_tmp st) suffix,
      st\<lparr>files := (files st)(Tmp (next_tmp st) suffix \<mapsto> Empty),
         next_tmp := Suc (next_tmp st)\<rparr>)"

text \<open>\<open>file.save(temp_input.name)\<close>: the uploaded bytes are written to the file.\<close>

definition file_save :: "path \<Rightarrow> ('w, 'img) state \<Rightarrow> ('w, 'img) state" where
  "file_save p st = st\<lparr>files := (files st)(p \<mapsto> Uploaded)\<rparr>"

text \<open>\<open>image.save(name, 'PNG')\<close>: when the encoder raises, the file stays as it was.\<close>

definition image_save ::
  "('w, 'img) services \<Rightarrow> 'img \<Rightarrow> path \<Rightarrow> ('w, 'img) state
     \<Rightarrow> (exn + unit) \<times> ('w, 'img) state" where
  "image_save svc img p st =
     (case save_png svc img (world st) of
        (Inl e, w) \<Rightarrow> (Inl e, st\<lparr>world := w\<rparr>)
      | (Inr u, w) \<Rightarrow> (Inr (), st\<lparr>world := w, files := (files st)(p \<mapsto> Png img)\<rparr>))"

text \<open>\<open>os.unlink(path)\<close> raises \<open>FileNotFoundError\<close> when there is no such file.\<close>

definition os_unlink ::
  "path \<Rightarrow> ('w, 'img) state \<Rightarrow> (exn + unit) \<times> ('w, 'img) state" where
  "os_unlink p st =
     (case files st p of
        None \<Rightarrow> (Inl (Exception ''No such file or directory''), st)
      | Some c \<Rightarrow> (Inr (), st\<lparr>files := (files st)(p := None)\<rparr>))"


section \<open>Processing one uploaded file (\<open>process_file\<close>)\<close>

text \<open>
  The inner loop \<open>for region in text_regions\<close>. A translation that raises is caught, a
  warning is logged and the region itself is appended; otherwise a new dictionary with
  the translated text, the region's \<open>bbox\<close> and its confidence (1.0 when absent) is.
\<close>

fun translate_regions ::
  "('w, 'img) services \<Rightarrow> region list \<Rightarrow> 'w \<Rightarrow> region list \<times> 'w" where
  "translate_regions svc [] w = ([], w)"
| "translate_regions svc (r # rs) w =
     (case translate svc (region_text r) w of
        (Inr translated_text, w1) \<Rightarrow>
          (case translate_regions svc rs w1 of
             (ts, w2) \<Rightarrow>
               (\<lparr>region_text = translated_text,
                 region_bbox = region_bbox r,
                 region_confidence =
                   Some (case region_confidence r of None \<Rightarrow> 1.0 | Some c \<Rightarrow> c)\<rparr> # ts, w2))
      | (Inl e, w1) \<Rightarrow>
          (case translate_regions svc rs w1 of (ts, w2) \<Rightarrow> (r # ts, w2)))"

text \<open>
  The three statements that end both branches of the loop body: a new temporary file
  with the suffix \<open>.png\<close> is made, the image is saved into it as PNG, and its name is
  what gets appended to \<open>processed_files\<close>.
\<close>

definition save_output ::
  "('w, 'img) services \<Rightarrow> 'img \<Rightarrow> ('w, 'img) state \<Rightarrow> (exn + path) \<times> ('w, 'img) state" where
  "save_output svc img st =
     (case named_temporary_file ''.png'' st of
        (temp_output, st1) \<Rightarrow>
          (case image_save svc img temp_output st1 of
             (Inl e, st2) \<Rightarrow> (Inl e, st2)
           | (Inr u, st2) \<Rightarrow> (Inr temp_output, st2)))"

text \<open>
  The body of the loop \<open>for image_data in images\<close>: the path it appends to
  \<open>processed_files\<close>, or the exception that leaves the loop. With no text region the
  original image is saved and the rest of the body is skipped (\<open>continue\<close>).
\<close>

definition process_image ::
  "('w, 'img) services \<Rightarrow> 'img \<Rightarrow> ('w, 'img) state \<Rightarrow> (exn + path) \<times> ('w, 'img) state" where
  "process_image svc image_data st =
     (case extract_text svc image_data (world st) of
        (Inl e, w1) \<Rightarrow> (Inl e, st\<lparr>world := w1\<rparr>)
      | (Inr text_regions, w1) \<Rightarrow>
          if text_regions = [] then save_output svc image_data (st\<lparr>world := w1\<rparr>)
          else
            (case translate_regions svc text_regions w1 of
               (translated_regions, w2) \<Rightarrow>
                 (case remove_text svc image_data text_regions w2 of
                    (Inl e, w3) \<Rightarrow> (Inl e, st\<lparr>world := w3\<rparr>)
                  | (Inr cleaned_image, w3) \<Rightarrow>
                      (case render_text svc cleaned_image translated_regions w3 of
                         (Inl e, w4) \<Rightarrow> (Inl e, st\<lparr>world := w4\<rparr>)
                       | (Inr final_image, w4) \<Rightarrow>
                           save_output svc final_image (st\<lparr>world := w4\<rparr>)))))"

text \<open>The loop over the images, with \<open>processed_files\<close> as it stands.\<close>

fun process_images ::
  "('w, 'img) services \<Rightarrow> 'img list \<Rightarrow> path list \<Rightarrow> ('w, 'img) state
     \<Rightarrow> (exn + path list) \<times> ('w, 'img) state" where
  "process_images svc [] processed_files st = (Inr processed_files, st)"
| "process_images svc (image_data # images) processed_files st =
     (case process_image svc image_data st of
        (Inl e, st1) \<Rightarrow> (Inl e, st1)
      | (Inr p, st1) \<Rightarrow> process_images svc images (processed_files @ [p]) st1)"

text \<open>
  \<open>process_file\<close>: any exception of the body is logged and raised again
  (\<open>except Exception as e: logger.error(...); raise\<close>).
\<close>

definition process_file ::
  "('w, 'img) services \<Rightarrow> path \<Rightarrow> string \<Rightarrow> ('w, 'img) state
     \<Rightarrow> (exn + path list) \<times> ('w, 'img) state" where
  "process_file svc file_path filename st =
     (case extract_images svc file_path filename (world st) of
        (Inl e, w) \<Rightarrow> (Inl e, st\<lparr>world := w\<rparr>)
      | (Inr images, w) \<Rightarrow> process_images svc images [] (st\<lparr>world := w\<rparr>))"


section \<open>The upload handler (\<open>upload_file\<close>)\<close>

text \<open>
  \<open>for i, file_path in enumerate(processed_files): zip_file.write(file_path,
  f"translated_{i+1}.png")\<close>, with \<open>i\<close> the index reached. Reading a file that is not there
  raises.
\<close>

fun zip_write_all ::
  "nat \<Rightarrow> path list \<Rightarrow> ('w, 'img) state \<Rightarrow> exn + (string \<times> 'img content) list" where
  "zip_write_all i [] st = Inr []"
| "zip_write_all i (file_path # ps) st =
     (case files st file_path of
        None \<Rightarrow> Inl (Exception ''No such file or directory'')
      | Some c \<Rightarrow>
          (case zip_write_all (Suc i) ps st of
             Inl e \<Rightarrow> Inl e
           | Inr entries \<Rightarrow> Inr ((''translated_'' @ str_nat (i + 1) @ ''.png'', c) # entries)))"

text \<open>\<open>for file_path in processed_files: os.unlink(file_path)\<close>.\<close>

fun unlink_all ::
  "path list \<Rightarrow> ('w, 'img) state \<Rightarrow> (exn + unit) \<times> ('w, 'img) state" where
  "unlink_all [] st = (Inr (), st)"
| "unlink_all (file_path # ps) st =
     (case os_unlink file_path st of
        (Inl e, st1) \<Rightarrow> (Inl e, st1)
      | (Inr u, st1) \<Rightarrow> unlink_all ps st1)"

text \<open>
  The body of the inner \<open>try\<close>: the response it returns, or the exception it raises.
  With exactly one processed file that file is sent under the name \<open>translated_\<close>
  followed by the whole \<open>filename\<close>; in every other case the archive is written, the
  processed files are unlinked and the archive is sent. \<open>send_file\<close> itself is taken to
  succeed.
\<close>

definition process_and_respond ::
  "('w, 'img) services \<Rightarrow> path \<Rightarrow> string \<Rightarrow> ('w, 'img) state
     \<Rightarrow> (exn + 'img response) \<times> ('w, 'img) state" where
  "process_and_respond svc temp_input filename st =
     (case process_file svc temp_input filename st of
        (Inl e, st1) \<Rightarrow> (Inl e, st1)
      | (Inr processed_files, st1) \<Rightarrow>
          if length processed_files = 1 then
            (Inr (Send_file (processed_files ! 0) (''translated_'' @ filename)), st1)
          else
            (case zip_write_all 0 processed_files st1 of
               Inl e \<Rightarrow> (Inl e, st1)
             | Inr entries \<Rightarrow>
                 (case unlink_all processed_files st1 of
                    (Inl e, st2) \<Rightarrow> (Inl e, st2)
                  | (Inr u, st2) \<Rightarrow>
                      (Inr (Send_zip entries
                              (''translated_'' @ rsplit1 CHR ''.'' filename ! 0 @ ''.zip'')),
                       st2))))"

text \<open>
  Lines 74 and 75 of the handler: the temporary input file is made, with the suffix
  \<open>_<filename>\<close>, and the upload is written to it. Either step may raise; when the
  second one does, the file made by the first stays on disk.
\<close>

definition save_upload ::
  "('w, 'img) services \<Rightarrow> string \<Rightarrow> ('w, 'img) state \<Rightarrow> (exn + path) \<times> ('w, 'img) state" where
  "save_upload svc filename st =
     (case make_temp svc (''_'' @ filename) (world st) of
        (Inl e, w) \<Rightarrow> (Inl e, st\<lparr>world := w\<rparr>)
      | (Inr u, w) \<Rightarrow>
          (case named_temporary_file (''_'' @ filename) (st\<lparr>world := w\<rparr>) of
             (temp_input, st1) \<Rightarrow>
               (case write_upload svc (world st1) of
                  (Inl e, w1) \<Rightarrow> (Inl e, st1\<lparr>world := w1\<rparr>)
                | (Inr u1, w1) \<Rightarrow>
                    (Inr temp_input, file_save temp_input (st1\<lparr>world := w1\<rparr>)))))"

text \<open>
  The branch taken for an allowed file. An exception while the upload is saved is raised
  before the inner \<open>try\<close> is entered: it reaches the outer \<open>except\<close>, which flashes
  \<open>Upload failed: ...\<close>; \<open>process_file\<close> is not called and the \<open>finally\<close> clause does
  not run. Otherwise the inner \<open>try\<close> runs, its \<open>except\<close> turns an exception into
  the flashed message \<open>Error processing file: ...\<close>, and its \<open>finally\<close> unlinks the
  input file. An exception of that \<open>unlink\<close> replaces the response and reaches the outer
  \<open>except\<close> as well.
\<close>

definition process_upload ::
  "('w, 'img) services \<Rightarrow> string \<Rightarrow> ('w, 'img) state \<Rightarrow> 'img response \<times> ('w, 'img) state" where
  "process_upload svc fname st =
     (let filename = secure_filename svc fname
      in case save_upload svc filename st of
           (Inl e, st1) \<Rightarrow> (Redirect_index [''Upload failed: '' @ message e], st1)
         | (Inr temp_input, st1) \<Rightarrow>
             (case process_and_respond svc temp_input filename st1 of
                (Inr resp, st2) \<Rightarrow>
                  (case os_unlink temp_input st2 of
                     (Inr u, st3) \<Rightarrow> (resp, st3)
                   | (Inl e', st3) \<Rightarrow>
                       (Redirect_index [''Upload failed: '' @ message e'], st3))
              | (Inl e, st2) \<Rightarrow>
                  (case os_unlink temp_input st2 of
                     (Inr u, st3) \<Rightarrow>
                       (Redirect_index [''Error processing file: '' @ message e], st3)
                   | (Inl e', st3) \<Rightarrow>
                       (Redirect_index [''Error processing file: '' @ message e,
                                        ''Upload failed: '' @ message e'], st3))))"

text \<open>
  \<open>upload_file\<close>. The request is \<open>None\<close> when it has no part named \<open>file\<close>, and
  otherwise the file name of that part. A \<open>FileStorage\<close> with a non-empty file name is
  true, so the test \<open>file and allowed_file(file.filename)\<close> is the test \<open>allowed_file\<close>.
\<close>

definition upload_file ::
  "('w, 'img) services \<Rightarrow> string option \<Rightarrow> ('w, 'img) state
     \<Rightarrow> 'img response \<times> ('w, 'img) state" where
  "upload_file svc request_file st =
     (case request_file of
        None \<Rightarrow> (Redirect_index [''No file selected''], st)
      | Some fname \<Rightarrow>
          if fname = [] then (Redirect_index [''No file selected''], st)
          else if allowed_file fname then process_upload svc fname st
          else (Redirect_index [''Invalid file type''], st))"


section \<open>Notions used in the statements\<close>

text \<open>
  The last extension of a file name, in the words of the description: the characters
  after the last dot.
\<close>

definition final_extension :: "string \<Rightarrow> string" where
  "final_extension filename = rev (takeWhile (\<lambda>c. c \<noteq> CHR ''.'') (rev filename))"

text \<open>The name without its last extension (\<open>filename.rsplit('.', 1)[0]\<close>).\<close>

definition stem :: "string \<Rightarrow> string" where
  "stem filename = rsplit1 CHR ''.'' filename ! 0"

text \<open>A response that delivers a file, as opposed to a flashed message.\<close>

fun is_success :: "'img response \<Rightarrow> bool" where
  "is_success (Redirect_index msgs) = False"
| "is_success (Send_file p name) = True"
| "is_success (Send_zip entries name) = True"

fun download_name :: "'img response \<Rightarrow> string option" where
  "download_name (Redirect_index msgs) = None"
| "download_name (Send_file p name) = Some name"
| "download_name (Send_zip entries name) = Some name"

text \<open>The names \<open>translated_1.png\<close>, ..., \<open>translated_n.png\<close>.\<close>

definition entry_names :: "nat \<Rightarrow> string list" where
  "entry_names n = map (\<lambda>i. ''translated_'' @ str_nat i @ ''.png'') [1 ..< Suc n]"

text \<open>
  Temporary files are numbered in the order of their creation: every file on disk has a
  serial number below the next one to be given out.
\<close>

definition wf_state :: "('w, 'img) state \<Rightarrow> bool" where
  "wf_state st = (\<forall>p \<in> dom (files st). tmp_id p < next_tmp st)"

text \<open>
  How a state may change while a file is processed: temporary files are added, the files
  made earlier are left as they were, and the numbering stays in order.
\<close>

definition extends :: "('w, 'img) state \<Rightarrow> ('w, 'img) state \<Rightarrow> bool" where
  "extends st st' =
     (next_tmp st \<le> next_tmp st'
      \<and> (\<forall>p. tmp_id p < next_tmp st \<longrightarrow> files st' p = files st p)
      \<and> (wf_state st \<longrightarrow> wf_state st'))"


section \<open>The contract of the extractor\<close>



section \<open>An instance of the collaborators for concrete runs\<close>

text \<open>
  Images are pages that record what was done to them. A temporary name may have a suffix
  of at most 244 characters. The extractor knows five file names and fails on the
  archive without images; the detector finds three regions on every page but the blank
  one; the translator's second call fails (its state counts the calls); the renderer
  fails on the page \<open>broken\<close>.
\<close>

datatype demo_image =
    Page string
  | Cleaned demo_image "region list"
  | Rendered demo_image "region list"

definition demo_regions :: "region list" where
  "demo_regions =
     [\<lparr>region_text = ''one'', region_bbox = (0, 0, 10, 10), region_confidence = Some 0.9\<rparr>,
      \<lparr>region_text = ''two'', region_bbox = (0, 20, 10, 10), region_confidence = None\<rparr>,
      \<lparr>region_text = ''three'', region_bbox = (0, 40, 10, 10), region_confidence = Some 0.5\<rparr>]"

definition demo_services :: "(nat, demo_image) services" where
  "demo_services =
     \<lparr>secure_filename = (\<lambda>s. s),
      make_temp = (\<lambda>suffix w.
        (if 244 < length suffix then Inl (Exception ''File name too long'') else Inr (), w)),
      write_upload = (\<lambda>w. (Inr (), w)),
      extract_images = (\<lambda>p filename w.
        (if filename = ''one.png'' then Inr [Page ''text'']
         else if filename = ''doc.pdf'' then Inr [Page ''text'']
         else if filename = ''two.zip'' then Inr [Page ''blank'', Page ''text'']
         else if filename = ''bad.zip'' then Inr [Page ''blank'', Page ''broken'', Page ''text'']
         else if filename = ''empty.zip'' then Inl (Exception ''No images found in archive'')
         else Inl (Exception ''cannot read''), w)),
      extract_text = (\<lambda>img w. (if img = Page ''blank'' then Inr [] else Inr demo_regions, w)),
      translate = (\<lambda>t w.
        (if w = 1 then Inl (Exception ''rate limit'') else Inr (''ar:'' @ t), Suc w)),
      remove_text = (\<lambda>img rs w. (Inr (Cleaned img rs), w)),
      render_text = (\<lambda>img rs w.
        (if img = Cleaned (Page ''broken'') demo_regions then Inl (Exception ''render failed'')
         else Inr (Rendered img rs), w)),
      save_png = (\<lambda>img w. (Inr (), w))\<rparr>"

definition demo_state :: "(nat, demo_image) state" where
  "demo_state = \<lparr>world = 0, files = Map.empty, next_tmp = 0\<rparr>"


section \<open>Properties of the configuration\<close>

text \<open>
  Claim C9. The configuration constants have the documented defaults:
  \<open>MAX_FILE_SIZE\<close> is \<open>200 * 1024 * 1024\<close> bytes (209715200, shown as 200 MB on the
  index page), \<open>OCR_CONFIDENCE_THRESHOLD\<close> is 0.3, \<open>FONT_SIZE_PADDING\<close> is 0.1, that is
  10 percent, and the font sizes from \<open>MIN_FONT_SIZE\<close> to \<open>MAX_FONT_SIZE\<close> form a
  non-empty range.
\<close>

theorem config_defaults:
  "MAX_FILE_SIZE = 200 * 1024 * 1024 \<and> MAX_FILE_SIZE = 209715200
   \<and> max_file_size_mb = 200
   \<and> OCR_CONFIDENCE_THRESHOLD = 3 / 10
   \<and> FONT_SIZE_PADDING = 1 / 10 \<and> FONT_SIZE_PADDING * 100 = 10
   \<and> MIN_FONT_SIZE \<le> MAX_FONT_SIZE \<and> {MIN_FONT_SIZE .. MAX_FONT_SIZE} \<noteq> {}"
  by (simp add: MAX_FILE_SIZE_def max_file_size_mb_def OCR_CONFIDENCE_THRESHOLD_def
      FONT_SIZE_PADDING_def MIN_FONT_SIZE_def MAX_FONT_SIZE_def)

text \<open>
  Claim C10. The allow-list written out in \<open>allowed_file\<close> and the union of the three
  format sets of \<open>Config.get_supported_formats\<close> are the same set of extensions, the
  second one carrying a leading dot: an extension \<open>e\<close> is in \<open>ALLOWED_EXTENSIONS\<close>
  exactly when \<open>'.' + e\<close> is in \<open>get_supported_formats()\<close>.
\<close>

theorem allowed_extensions_match_config:
  "e \<in> ALLOWED_EXTENSIONS \<longleftrightarrow> CHR ''.'' # e \<in> get_supported_formats"
  unfolding ALLOWED_EXTENSIONS_def get_supported_formats_def SUPPORTED_IMAGE_FORMATS_def
    SUPPORTED_PDF_FORMATS_def SUPPORTED_ARCHIVE_FORMATS_def
  by auto


section \<open>The allow-list and the dispatch of \<open>upload_file\<close>\<close>

lemma rsplit1_length:
  "length (rsplit1 sep s) = (if sep \<in> set s then 2 else 1)"
  by (simp add: rsplit1_def)

lemma allowed_file_iff:
  "allowed_file filename \<longleftrightarrow>
     CHR ''.'' \<in> set filename \<and> lower (final_extension filename) \<in> ALLOWED_EXTENSIONS"
  by (auto simp: allowed_file_def rsplit1_def final_extension_def)

lemma allowed_file_nonempty: "allowed_file fname \<Longrightarrow> fname \<noteq> []"
  by (auto simp: allowed_file_def)

lemma upload_file_allowed:
  "allowed_file fname \<Longrightarrow> upload_file svc (Some fname) st = process_upload svc fname st"
  by (auto simp: upload_file_def allowed_file_def)

lemma demo_allowed:
  "allowed_file ''one.png''" "allowed_file ''two.zip''" "allowed_file ''bad.zip''"
  "allowed_file ''empty.zip''" "allowed_file ''doc.pdf''"
  by code_simp+

lemma upper_case_extension_allowed: "allowed_file ''Scan.final.JPEG''"
  by code_simp

lemma archive_of_sources_rejected: "\<not> allowed_file ''pages.tar.gz''"
  by code_simp

lemmas demo_defs = demo_services_def demo_state_def demo_regions_def

lemmas file_ops = named_temporary_file_def file_save_def os_unlink_def save_upload_def

text \<open>
  Claim C7, as amended. For every uploaded file name the handler enters the processing
  branch exactly when the name contains a dot and its last extension, in lower case, is
  one of the twelve listed. Every other name is answered by a flashed message and a
  redirect, with no collaborator called and the state left as it was: the message is
  \<open>Invalid file type\<close> for a non-empty name and \<open>No file selected\<close> for the empty one.
\<close>

theorem upload_dispatch_on_extension:
  "upload_file svc (Some fname) st =
     (if CHR ''.'' \<in> set fname
         \<and> lower (final_extension fname) \<in>
             {''png'', ''jpg'', ''jpeg'', ''gif'', ''bmp'', ''tiff'', ''webp'', ''pdf'',
              ''zip'', ''rar'', ''cbz'', ''cbr''}
      then process_upload svc fname st
      else (Redirect_index [if fname = [] then ''No file selected'' else ''Invalid file type''],
            st))"
  using allowed_file_iff[of fname]
  by (auto simp: upload_file_def ALLOWED_EXTENSIONS_def)

text \<open>
  Claim C7 as stated fails at the empty file name: it is not an allowed name, and the
  answer is \<open>No file selected\<close>, not \<open>Invalid file type\<close>.
\<close>

theorem empty_filename_counterexample:
  "\<not> allowed_file ''''
   \<and> fst (upload_file demo_services (Some '''') demo_state)
       = Redirect_index [''No file selected'']
   \<and> fst (upload_file demo_services (Some '''') demo_state)
       \<noteq> Redirect_index [''Invalid file type'']"
  by (simp add: upload_file_def allowed_file_def)


section \<open>Temporary files during processing\<close>

lemma extends_refl: "extends st st"
  by (simp add: extends_def)

lemma extends_trans: "extends a b \<Longrightarrow> extends b c \<Longrightarrow> extends a c"
  unfolding extends_def by (metis le_trans less_le_trans)

lemma extends_world: "extends st (st\<lparr>world := w\<rparr>)"
  by (simp add: extends_def wf_state_def)

lemma save_output_eq:
  "save_output svc img st =
     (case save_png svc img (world st) of
        (Inl e, w) \<Rightarrow>
          (Inl e, st\<lparr>world := w, files := (files st)(Tmp (next_tmp st) ''.png'' \<mapsto> Empty),
                     next_tmp := Suc (next_tmp st)\<rparr>)
      | (Inr u, w) \<Rightarrow>
          (Inr (Tmp (next_tmp st) ''.png''),
           st\<lparr>world := w, files := (files st)(Tmp (next_tmp st) ''.png'' \<mapsto> Png img),
              next_tmp := Suc (next_tmp st)\<rparr>))"
  by (simp add: save_output_def named_temporary_file_def image_save_def
      split: prod.splits sum.splits)

lemma save_output_extends:
  assumes "save_output svc img st = (r, st')"
  shows "extends st st'"
  using assms
  by (auto simp: save_output_eq extends_def wf_state_def
      split: prod.splits sum.splits if_splits intro!: less_SucI)

lemma save_output_result:
  assumes "save_output svc img st = (Inr p, st')"
  shows "tmp_id p = next_tmp st \<and> next_tmp st' = Suc (next_tmp st)
         \<and> files st' = (files st)(p \<mapsto> Png img)"
  using assms
  by (auto simp: save_output_eq split: prod.splits sum.splits)

lemma process_image_extends:
  assumes "process_image svc image_data st = (r, st')"
  shows "extends st st'"
proof -
  have w: "\<And>w img r st'. save_output svc img (st\<lparr>world := w\<rparr>) = (r, st') \<Longrightarrow> extends st st'"
    by (rule extends_trans[OF extends_world save_output_extends])
  show ?thesis
    using assms unfolding process_image_def
    by (auto split: prod.splits sum.splits if_splits dest: w intro: extends_world)
qed

text \<open>
  An image that is processed without an exception adds exactly one file: the one whose
  name is appended, holding a PNG.
\<close>

lemma process_image_result:
  assumes "process_image svc image_data st = (Inr p, st')"
  shows "tmp_id p = next_tmp st \<and> next_tmp st' = Suc (next_tmp st)
         \<and> (\<exists>i. files st' = (files st)(p \<mapsto> Png i))"
proof -
  have w: "\<And>w img. save_output svc img (st\<lparr>world := w\<rparr>) = (Inr p, st') \<Longrightarrow> ?thesis"
    using save_output_result[of svc _ "st\<lparr>world := _\<rparr>" p st'] by fastforce
  show ?thesis
    using assms unfolding process_image_def
    by (auto split: prod.splits sum.splits if_splits dest!: w)
qed

lemma process_images_extends:
  assumes "process_images svc images acc st = (r, st')"
  shows "extends st st'"
  using assms
proof (induction images arbitrary: acc st)
  case Nil
  then show ?case by (simp add: extends_refl)
next
  case (Cons i images)
  obtain r1 st1 where step: "process_image svc i st = (r1, st1)"
    by (cases "process_image svc i st")
  show ?case
  proof (cases r1)
    case (Inl e)
    with Cons.prems step have "st' = st1" by simp
    with process_image_extends[OF step] show ?thesis by simp
  next
    case (Inr p)
    with Cons.prems step have "process_images svc images (acc @ [p]) st1 = (r, st')" by simp
    from Cons.IH[OF this] process_image_extends[OF step] show ?thesis
      by (blast intro: extends_trans)
  qed
qed

text \<open>
  When the loop ends without an exception, it has appended one new file per image: the
  new names are distinct, were made during the loop, and each holds a PNG.
\<close>

lemma process_images_result:
  assumes "process_images svc images acc st = (Inr ps, st')"
  shows "\<exists>new. ps = acc @ new \<and> length new = length images \<and> distinct new
    \<and> (\<forall>p \<in> set new. next_tmp st \<le> tmp_id p \<and> tmp_id p < next_tmp st'
          \<and> (\<exists>i. files st' p = Some (Png i)))"
  using assms
proof (induction images arbitrary: acc st)
  case Nil
  then show ?case by simp
next
  case (Cons i images)
  obtain r1 st1 where step: "process_image svc i st = (r1, st1)"
    by (cases "process_image svc i st")
  with Cons.prems obtain p where r1: "r1 = Inr p"
    and rest: "process_images svc images (acc @ [p]) st1 = (Inr ps, st')"
    by (cases r1) auto
  from Cons.IH[OF rest] obtain new where new: "ps = (acc @ [p]) @ new"
    "length new = length images" "distinct new"
    "\<forall>q \<in> set new. next_tmp st1 \<le> tmp_id q \<and> tmp_id q < next_tmp st'
          \<and> (\<exists>i. files st' q = Some (Png i))"
    by blast
  have p: "next_tmp st \<le> tmp_id p" "tmp_id p < next_tmp st1" "\<exists>i. files st1 p = Some (Png i)"
    using process_image_result[OF step[unfolded r1]] by auto
  have fr: "next_tmp st1 \<le> next_tmp st'" "files st' p = files st1 p"
    using process_images_extends[OF rest] p(2) by (auto simp: extends_def)
  have mono: "next_tmp st \<le> next_tmp st1"
    using process_image_extends[OF step] by (simp add: extends_def)
  have "p \<notin> set new" using new(4) p(2) by auto
  then have "distinct (p # new)" using new(3) by simp
  moreover have "\<forall>q \<in> set (p # new). next_tmp st \<le> tmp_id q \<and> tmp_id q < next_tmp st'
          \<and> (\<exists>i. files st' q = Some (Png i))"
    using new(4) p fr mono by auto
  ultimately show ?case using new(1,2)
    by (intro exI[of _ "p # new"]) simp
qed

lemma process_images_append:
  "process_images svc (xs @ ys) acc st =
     (case process_images svc xs acc st of
        (Inl e, st1) \<Rightarrow> (Inl e, st1)
      | (Inr ps, st1) \<Rightarrow> process_images svc ys ps st1)"
  by (induction xs arbitrary: acc st) (auto split: prod.splits sum.splits)

lemma process_file_extends:
  assumes "process_file svc file_path filename st = (r, st')"
  shows "extends st st'"
  using assms unfolding process_file_def
  by (auto split: prod.splits sum.splits
      intro: extends_world extends_trans[OF extends_world process_images_extends])

lemma process_file_result:
  assumes "process_file svc file_path filename st = (Inr ps, st')"
  shows "distinct ps
    \<and> (\<forall>p \<in> set ps. next_tmp st \<le> tmp_id p \<and> (\<exists>i. files st' p = Some (Png i)))"
  using assms unfolding process_file_def
  by (auto split: prod.splits sum.splits dest!: process_images_result)



section \<open>Writing the archive and removing the files\<close>

lemma entry_names_length: "length (entry_names n) = n"
  by (simp add: entry_names_def)

lemma demo_entry_names: "entry_names 2 = [''translated_1.png'', ''translated_2.png'']"
  by code_simp

lemma zip_write_all_ok:
  assumes "map (files st) ps = map Some cs"
  shows "zip_write_all i ps st =
           Inr (zip (map (\<lambda>k. ''translated_'' @ str_nat k @ ''.png'')
                       [Suc i ..< Suc (i + length ps)]) cs)"
  using assms
proof (induction ps arbitrary: i cs)
  case Nil
  then show ?case by simp
next
  case (Cons p ps)
  then obtain c cs' where cs: "cs = c # cs'" "files st p = Some c"
    "map (files st) ps = map Some cs'"
    by (cases cs) auto
  have "[Suc i ..< Suc (i + length (p # ps))] = Suc i # [Suc (Suc i) ..< Suc (Suc i + length ps)]"
    by (subst upt_conv_Cons) simp_all
  with Cons.IH[OF cs(3), of "Suc i"] cs show ?case by simp
qed

lemma unlink_all_ok:
  assumes "distinct ps" "set ps \<subseteq> dom (files st)"
  shows "unlink_all ps st = (Inr (), st\<lparr>files := files st |` (- set ps)\<rparr>)"
  using assms
proof (induction ps arbitrary: st)
  case Nil
  then show ?case by simp
next
  case (Cons p ps)
  then obtain c where c: "files st p = Some c" by auto
  let ?st1 = "st\<lparr>files := (files st)(p := None)\<rparr>"
  have "distinct ps" "set ps \<subseteq> dom (files ?st1)" using Cons.prems by auto
  have "(\<lambda>a. if a \<notin> set ps then if a = p then None else files st a else None)
        = (\<lambda>a. if a \<noteq> p \<and> a \<notin> set ps then files st a else None)"
    by (rule ext) simp
  with Cons.IH[OF \<open>distinct ps\<close> \<open>set ps \<subseteq> dom (files ?st1)\<close>] c show ?case
    by (simp add: os_unlink_def restrict_map_def)
qed

lemma png_contents:
  assumes "\<forall>p \<in> set ps. \<exists>i. f p = Some (Png i)"
  shows "\<exists>imgs. map f ps = map (\<lambda>i. Some (Png i)) imgs"
  using assms
proof (induction ps)
  case Nil
  then show ?case by simp
next
  case (Cons p ps)
  from Cons.prems obtain i where "f p = Some (Png i)" by auto
  moreover from Cons obtain imgs where "map f ps = map (\<lambda>i. Some (Png i)) imgs" by auto
  ultimately have "map f (p # ps) = map (\<lambda>i. Some (Png i)) (i # imgs)" by simp
  then show ?case by blast
qed


section \<open>The response of the processing branch\<close>

text \<open>What a saved upload leaves: one new file, the input file, holding the upload.\<close>

lemma save_upload_result:
  assumes "save_upload svc filename st = (Inr temp_input, st1)"
  shows "temp_input = Tmp (next_tmp st) (''_'' @ filename)
         \<and> next_tmp st1 = Suc (next_tmp st)
         \<and> files st1 = (files st)(temp_input \<mapsto> Uploaded)"
  using assms
  by (auto simp: save_upload_def named_temporary_file_def file_save_def
      split: prod.splits sum.splits)


lemma long_name_upload_fails:
  "allowed_file (replicate 250 CHR ''a'' @ ''.png'')
   \<and> fst (upload_file demo_services (Some (replicate 250 CHR ''a'' @ ''.png'')) demo_state)
       = Redirect_index [''Upload failed: File name too long'']"
proof -
  have a: "allowed_file (replicate 250 CHR ''a'' @ ''.png'')"
    by (simp add: allowed_file_iff final_extension_def ALLOWED_EXTENSIONS_def
        lower_def lower_char_def)
  have "replicate 250 CHR ''a'' @ ''.png'' \<noteq> []" by simp
  with a show ?thesis
    by (simp add: upload_file_def process_upload_def save_upload_def demo_services_def
        demo_state_def)
qed

lemma input_file_kept_by_processing:
  assumes saved: "save_upload svc name st = (Inr temp_input, st1)"
    and pf: "process_file svc temp_input filename st1 = (r, st2)"
  shows "files st2 temp_input = Some Uploaded"
proof -
  have "tmp_id temp_input < next_tmp st1" "files st1 temp_input = Some Uploaded"
    using save_upload_result[OF saved] by auto
  with process_file_extends[OF pf] show ?thesis by (simp add: extends_def)
qed

text \<open>
  When \<open>process_file\<close> returns a list, the handler answers with the single file when the
  list has one element and with the archive otherwise, the empty list included; the
  archive branch removes the processed files, the single-file branch does not.
\<close>

lemma process_upload_processed:
  assumes saved: "save_upload svc (secure_filename svc fname) st = (Inr temp_input, st1)"
    and pf: "process_file svc temp_input (secure_filename svc fname) st1 = (Inr ps, st2)"
  shows "\<exists>imgs. map (files st2) ps = map (\<lambda>i. Some (Png i)) imgs \<and>
     process_upload svc fname st =
       (if length ps = 1
        then (Send_file (ps ! 0) (''translated_'' @ secure_filename svc fname),
              st2\<lparr>files := (files st2)(temp_input := None)\<rparr>)
        else (Send_zip (zip (entry_names (length ps)) (map Png imgs))
                (''translated_'' @ stem (secure_filename svc fname) @ ''.zip''),
              st2\<lparr>files := (files st2 |` (- set ps))(temp_input := None)\<rparr>))"
proof -
  have ti: "tmp_id temp_input < next_tmp st1"
    using save_upload_result[OF saved] by auto
  have input: "files st2 temp_input = Some Uploaded"
    using input_file_kept_by_processing[OF saved pf] .
  have res: "distinct ps"
    "\<forall>p \<in> set ps. next_tmp st1 \<le> tmp_id p \<and> (\<exists>i. files st2 p = Some (Png i))"
    using process_file_result[OF pf] by auto
  have notin: "temp_input \<notin> set ps" using res(2) ti by auto
  from res(2) obtain imgs where imgs: "map (files st2) ps = map (\<lambda>i. Some (Png i)) imgs"
    using png_contents[of ps "files st2"] by blast
  then have imgs': "map (files st2) ps = map Some (map Png imgs)" by simp
  have dom: "set ps \<subseteq> dom (files st2)" using res(2) by auto
  have zipw: "zip_write_all 0 ps st2 = Inr (zip (entry_names (length ps)) (map Png imgs))"
    using zip_write_all_ok[OF imgs', of 0] by (simp add: entry_names_def)
  have unl: "unlink_all ps st2 = (Inr (), st2\<lparr>files := files st2 |` (- set ps)\<rparr>)"
    using unlink_all_ok[OF res(1) dom] .
  have "process_upload svc fname st =
       (if length ps = 1
        then (Send_file (ps ! 0) (''translated_'' @ secure_filename svc fname),
              st2\<lparr>files := (files st2)(temp_input := None)\<rparr>)
        else (Send_zip (zip (entry_names (length ps)) (map Png imgs))
                (''translated_'' @ stem (secure_filename svc fname) @ ''.zip''),
              st2\<lparr>files := (files st2 |` (- set ps))(temp_input := None)\<rparr>))"
    using saved pf zipw unl input notin
    by (simp add: process_upload_def process_and_respond_def os_unlink_def stem_def)
  with imgs show ?thesis by blast
qed

text \<open>When \<open>process_file\<close> raises, the handler flashes the error and redirects.\<close>

lemma process_upload_failed:
  assumes saved: "save_upload svc (secure_filename svc fname) st = (Inr temp_input, st1)"
    and pf: "process_file svc temp_input (secure_filename svc fname) st1 = (Inl e, st2)"
  shows "process_upload svc fname st =
           (Redirect_index [''Error processing file: '' @ message e],
            st2\<lparr>files := (files st2)(temp_input := None)\<rparr>)"
  using saved pf input_file_kept_by_processing[OF saved pf]
  by (simp add: process_upload_def process_and_respond_def os_unlink_def)

text \<open>
  Once the upload is saved, the processing branch runs \<open>process_file\<close> on it, and its
  answer is decided by the outcome: the flashed error when \<open>process_file\<close> raises, a
  delivered file or archive when it returns.
\<close>

lemma process_upload_runs_process_file:
  assumes saved: "save_upload svc (secure_filename svc fname) st = (Inr temp_input, st1)"
  shows "(\<exists>e st2. process_file svc temp_input (secure_filename svc fname) st1 = (Inl e, st2)
            \<and> fst (process_upload svc fname st)
                = Redirect_index [''Error processing file: '' @ message e])
       \<or> (\<exists>ps st2. process_file svc temp_input (secure_filename svc fname) st1 = (Inr ps, st2)
            \<and> is_success (fst (process_upload svc fname st)))"
proof -
  obtain r st2 where pf:
    "process_file svc temp_input (secure_filename svc fname) st1 = (r, st2)"
    by (cases "process_file svc temp_input (secure_filename svc fname) st1")
  show ?thesis
  proof (cases r)
    case (Inl e)
    with pf process_upload_failed[OF saved] show ?thesis by auto
  next
    case (Inr ps)
    with pf process_upload_processed[OF saved, of ps st2]
    have "is_success (fst (process_upload svc fname st))" by (auto split: if_splits)
    with pf Inr show ?thesis by auto
  qed
qed

text \<open>
  Once the upload is saved, the input file is gone when the handler returns, whatever
  the inner \<open>try\<close> does. (When writing the upload raises, the input file stays:
  the \<open>finally\<close> clause is not reached.)
\<close>

lemma os_unlink_removes: "files (snd (os_unlink p st)) p = None"
  by (simp add: os_unlink_def split: option.splits)

lemma input_file_removed_after_processing:
  assumes saved: "save_upload svc (secure_filename svc fname) st = (Inr temp_input, st1)"
  shows "files (snd (process_upload svc fname st)) temp_input = None"
proof -
  obtain r st2 where pr:
    "process_and_respond svc temp_input (secure_filename svc fname) st1 = (r, st2)"
    by (cases "process_and_respond svc temp_input (secure_filename svc fname) st1")
  obtain u st3 where un: "os_unlink temp_input st2 = (u, st3)"
    by (cases "os_unlink temp_input st2")
  have "files st3 temp_input = None" using os_unlink_removes[of temp_input st2] un by simp
  moreover have "snd (process_upload svc fname st) = st3"
    using saved pr un by (cases r; cases u) (simp_all add: process_upload_def)
  ultimately show ?thesis by simp
qed

lemma unsaved_upload_leaves_input_file:
  assumes mk: "make_temp svc (''_'' @ secure_filename svc fname) (world st) = (Inr (), w)"
    and wr: "write_upload svc w = (Inl e, w1)"
  shows "fst (process_upload svc fname st) = Redirect_index [''Upload failed: '' @ message e]
       \<and> files (snd (process_upload svc fname st))
            (Tmp (next_tmp st) (''_'' @ secure_filename svc fname)) = Some Empty"
  using assms
  by (simp add: process_upload_def save_upload_def named_temporary_file_def)


section \<open>Translating the regions of one image\<close>

lemma translate_regions_bbox:
  "map region_bbox (fst (translate_regions svc rs w)) = map region_bbox rs"
proof (induction rs arbitrary: w)
  case Nil
  then show ?case by simp
next
  case (Cons r rs)
  obtain res w1 where t: "translate svc (region_text r) w = (res, w1)"
    by (cases "translate svc (region_text r) w")
  obtain ts w2 where ts: "translate_regions svc rs w1 = (ts, w2)"
    by (cases "translate_regions svc rs w1")
  from Cons[of w1] ts have "map region_bbox ts = map region_bbox rs" by simp
  with t ts show ?case by (cases res) simp_all
qed

lemma translate_regions_append:
  "translate_regions svc (xs @ ys) w =
     (case translate_regions svc xs w of
        (txs, w1) \<Rightarrow> (case translate_regions svc ys w1 of (tys, w2) \<Rightarrow> (txs @ tys, w2)))"
  by (induction xs arbitrary: w) (auto split: prod.splits sum.splits)

text \<open>
  Claim C5. For every list of detected text regions, the list of translated regions has
  exactly one element per input region, and its i-th element has the bounding box of the
  i-th input region, whether the translation of that region returned or raised.
\<close>

theorem translate_regions_geometry:
  "length (fst (translate_regions svc text_regions w)) = length text_regions
   \<and> map region_bbox (fst (translate_regions svc text_regions w))
       = map region_bbox text_regions"
  using translate_regions_bbox[of svc text_regions w] map_eq_imp_length_eq by blast


section \<open>The body of the loop over the images\<close>

lemma process_image_with_text:
  assumes "extract_text svc image_data (world st) = (Inr text_regions, w1)"
    and "text_regions \<noteq> []"
    and "translate_regions svc text_regions w1 = (translated_regions, w2)"
  shows "process_image svc image_data st =
     (case remove_text svc image_data text_regions w2 of
        (Inl e, w3) \<Rightarrow> (Inl e, st\<lparr>world := w3\<rparr>)
      | (Inr cleaned_image, w3) \<Rightarrow>
          (case render_text svc cleaned_image translated_regions w3 of
             (Inl e, w4) \<Rightarrow> (Inl e, st\<lparr>world := w4\<rparr>)
           | (Inr final_image, w4) \<Rightarrow> save_output svc final_image (st\<lparr>world := w4\<rparr>)))"
  using assms by (simp add: process_image_def)

text \<open>
  Claim C6. For every extracted image for which detection returns no text region, the
  loop body saves the original image, unchanged, as PNG into a new temporary file and
  skips translation, inpainting and rendering: whatever these three collaborators are,
  the outcome is the same. The file is appended to the list of processed files: the list
  that \<open>process_file\<close> returns has one entry per extracted image, the entry at the
  position of this image is that file, and the file holds the original image. (The PNG
  encoder is assumed not to raise on the image, and the other images to be processed
  without an exception, since otherwise no list is returned at all.)
\<close>

theorem no_text_image_passes_through:
  assumes ex: "extract_images svc file_path filename (world st)
                 = (Inr (before @ image_data # after), w0)"
    and pre: "process_images svc before [] (st\<lparr>world := w0\<rparr>) = (Inr done, st2)"
    and det: "extract_text svc image_data (world st2) = (Inr [], w1)"
    and sv: "save_png svc image_data w1 = (Inr (), w2)"
    and rest: "process_images svc after (done @ [Tmp (next_tmp st2) ''.png''])
                 (st2\<lparr>world := w2,
                     files := (files st2)(Tmp (next_tmp st2) ''.png'' \<mapsto> Png image_data),
                     next_tmp := Suc (next_tmp st2)\<rparr>)
               = (Inr processed_files, st3)"
  shows "process_image svc image_data st2 =
           (Inr (Tmp (next_tmp st2) ''.png''),
            st2\<lparr>world := w2,
                files := (files st2)(Tmp (next_tmp st2) ''.png'' \<mapsto> Png image_data),
                next_tmp := Suc (next_tmp st2)\<rparr>)
         \<and> process_image (svc\<lparr>translate := tr, remove_text := rm, render_text := rd\<rparr>)
               image_data st2
             = process_image svc image_data st2
         \<and> process_file svc file_path filename st = (Inr processed_files, st3)
         \<and> length processed_files = length (before @ image_data # after)
         \<and> processed_files ! length before = Tmp (next_tmp st2) ''.png''
         \<and> files st3 (Tmp (next_tmp st2) ''.png'') = Some (Png image_data)"
proof -
  let ?p = "Tmp (next_tmp st2) ''.png''"
  let ?st = "st2\<lparr>world := w2, files := (files st2)(?p \<mapsto> Png image_data),
                 next_tmp := Suc (next_tmp st2)\<rparr>"
  have img: "process_image svc image_data st2 = (Inr ?p, ?st)"
    using det sv by (simp add: process_image_def save_output_eq)
  have skip: "process_image (svc\<lparr>translate := tr, remove_text := rm, render_text := rd\<rparr>)
                image_data st2 = process_image svc image_data st2"
    using det sv by (simp add: process_image_def save_output_eq)
  have pf: "process_file svc file_path filename st = (Inr processed_files, st3)"
    using ex pre img rest by (simp add: process_file_def process_images_append)
  from process_images_result[OF pre] have len_done: "length done = length before" by auto
  from process_images_result[OF rest] obtain new where
    new: "processed_files = (done @ [?p]) @ new" "length new = length after" by blast
  have len: "length processed_files = length (before @ image_data # after)"
    using new len_done by simp
  have at: "processed_files ! length before = ?p"
    using new(1) len_done by (simp add: nth_append)
  have "files st3 ?p = files ?st ?p"
    using process_images_extends[OF rest] by (simp add: extends_def)
  then have kept: "files st3 ?p = Some (Png image_data)" by simp
  from img skip pf len at kept show ?thesis by simp
qed

text \<open>
  A run of claim C6: the first page of the upload \<open>two.zip\<close> is blank. The list
  returned for the upload has two entries, the first one is the file made for the blank
  page, and that file holds the page as it was extracted.
\<close>

theorem no_text_image_passes_through_witness:
  "extract_text demo_services (Page ''blank'') 0 = (Inr [], 0)
   \<and> fst (process_file demo_services (Tmp 0 ''_two.zip'') ''two.zip''
          (snd (save_upload demo_services ''two.zip'' demo_state)))
       = Inr [Tmp 1 ''.png'', Tmp 2 ''.png'']
   \<and> files (snd (process_file demo_services (Tmp 0 ''_two.zip'') ''two.zip''
                 (snd (save_upload demo_services ''two.zip'' demo_state))))
         (Tmp 1 ''.png'')
       = Some (Png (Page ''blank''))"
  using no_text_image_passes_through[where svc = demo_services
      and file_path = "Tmp 0 ''_two.zip''" and filename = "''two.zip''"
      and st = "snd (save_upload demo_services ''two.zip'' demo_state)"
      and before = "[]" and image_data = "Page ''blank''" and after = "[Page ''text'']"
      and ?w0.0 = 0 and ?done = "[]"
      and ?st2.0 = "snd (save_upload demo_services ''two.zip'' demo_state)"
      and ?w1.0 = 0 and ?w2.0 = 0
      and processed_files = "[Tmp 1 ''.png'', Tmp 2 ''.png'']"
      and ?st3.0 = "snd (process_file demo_services (Tmp 0 ''_two.zip'') ''two.zip''
                      (snd (save_upload demo_services ''two.zip'' demo_state)))"
      and tr = "\<lambda>t w. (Inl (Exception ''down''), w)"
      and rm = "\<lambda>i rs w. (Inl (Exception ''down''), w)"
      and rd = "\<lambda>i rs w. (Inl (Exception ''down''), w)"]
  by (simp add: demo_defs file_ops save_output_eq process_file_def process_image_def)


section \<open>The response for one and for several processed images\<close>

text \<open>
  For any collaborators: when the upload is saved and \<open>process_file\<close> returns exactly
  one file, that file, which holds a PNG, is sent under the name \<open>translated_\<close> followed
  by the whole secured file name; when it returns more than one, an archive named after
  the stem is sent, with one entry \<open>translated_i.png\<close> per file, in order.
\<close>

lemma response_by_bundle_size:
  assumes allowed: "allowed_file fname"
    and saved: "save_upload svc (secure_filename svc fname) st = (Inr temp_input, st1)"
    and pf: "process_file svc temp_input (secure_filename svc fname) st1
               = (Inr processed_files, st2)"
  shows "(length processed_files = 1 \<longrightarrow>
            fst (upload_file svc (Some fname) st) =
              Send_file (processed_files ! 0) (''translated_'' @ secure_filename svc fname)
            \<and> (\<exists>img. files (snd (upload_file svc (Some fname) st)) (processed_files ! 0)
                        = Some (Png img)))
       \<and> (1 < length processed_files \<longrightarrow>
            (\<exists>imgs. length imgs = length processed_files
               \<and> map (files st2) processed_files = map (\<lambda>i. Some (Png i)) imgs
               \<and> fst (upload_file svc (Some fname) st) =
                   Send_zip (zip (entry_names (length processed_files)) (map Png imgs))
                     (''translated_'' @ stem (secure_filename svc fname) @ ''.zip'')))"
proof -
  from process_upload_processed[OF saved pf] obtain imgs where
    imgs: "map (files st2) processed_files = map (\<lambda>i. Some (Png i)) imgs"
    and up: "process_upload svc fname st =
       (if length processed_files = 1
        then (Send_file (processed_files ! 0) (''translated_'' @ secure_filename svc fname),
              st2\<lparr>files := (files st2)(temp_input := None)\<rparr>)
        else (Send_zip (zip (entry_names (length processed_files)) (map Png imgs))
                (''translated_'' @ stem (secure_filename svc fname) @ ''.zip''),
              st2\<lparr>files := (files st2 |` (- set processed_files))(temp_input := None)\<rparr>))"
    by blast
  have len: "length imgs = length processed_files"
    using imgs map_eq_imp_length_eq by fastforce
  have eq: "upload_file svc (Some fname) st = process_upload svc fname st"
    using upload_file_allowed[OF allowed] .
  have single: "length processed_files = 1 \<Longrightarrow>
      \<exists>img. files (snd (upload_file svc (Some fname) st)) (processed_files ! 0) = Some (Png img)"
  proof -
    assume one: "length processed_files = 1"
    then obtain p where p: "processed_files = [p]"
      by (cases processed_files) auto
    with imgs len obtain i where i: "files st2 p = Some (Png i)"
      by (cases imgs) auto
    have "files st2 temp_input = Some Uploaded"
      using input_file_kept_by_processing[OF saved pf] .
    with i have "p \<noteq> temp_input" by auto
    with i p one up eq show ?thesis by simp
  qed
  show ?thesis
    using single imgs len up eq by auto
qed

text \<open>
  Claim C1, evaluated where it fails. The upload \<open>doc.pdf\<close> has one page, so exactly
  one processed image is produced, and it is sent directly. The file sent holds a PNG,
  but its attachment name is \<open>translated_doc.pdf\<close>: the uploaded name with its own
  extension, neither \<open>translated_doc\<close> nor \<open>translated_doc.png\<close>. The archive branch
  does name what it sends after the stem and gives its PNG entries the extension
  \<open>.png\<close>, as the answer to \<open>two.zip\<close> shows.
\<close>

theorem single_image_sent_under_uploaded_name:
  "fst (process_file demo_services (Tmp 0 ''_doc.pdf'') ''doc.pdf''
          (snd (save_upload demo_services ''doc.pdf'' demo_state)))
     = Inr [Tmp 1 ''.png'']
   \<and> fst (upload_file demo_services (Some ''doc.pdf'') demo_state)
       = Send_file (Tmp 1 ''.png'') ''translated_doc.pdf''
   \<and> files (snd (upload_file demo_services (Some ''doc.pdf'') demo_state)) (Tmp 1 ''.png'')
       = Some (Png (Rendered (Cleaned (Page ''text'') demo_regions)
                      (fst (translate_regions demo_services demo_regions 0))))
   \<and> stem ''doc.pdf'' = ''doc''
   \<and> download_name (fst (upload_file demo_services (Some ''doc.pdf'') demo_state))
       \<noteq> Some (''translated_'' @ stem ''doc.pdf'')
   \<and> download_name (fst (upload_file demo_services (Some ''doc.pdf'') demo_state))
       \<noteq> Some (''translated_'' @ stem ''doc.pdf'' @ ''.png'')
   \<and> final_extension ''translated_doc.pdf'' = ''pdf''
   \<and> fst (upload_file demo_services (Some ''two.zip'') demo_state)
       = Send_zip
           [(''translated_1.png'', Png (Page ''blank'')),
            (''translated_2.png'',
             Png (Rendered (Cleaned (Page ''text'') demo_regions)
                    (fst (translate_regions demo_services demo_regions 0))))]
           ''translated_two.zip''"
  by (simp add: demo_defs demo_allowed file_ops save_output_eq process_file_def
      process_image_def upload_file_def process_upload_def process_and_respond_def
      str_nat.simps stem_def rsplit1_def final_extension_def restrict_map_def)


section \<open>Failures inside the loop\<close>

text \<open>
  Claim C4. For every image with K detected text regions, when the translation call
  raises for one of them, the batch goes on: that region is kept as it is, with its
  original text, at its place in the list; the remaining regions are still translated;
  all K regions, with their original bounding boxes, are what the renderer receives; and,
  the other stages not raising, the image is saved and the request is answered with a
  file.
\<close>

theorem translation_failure_is_isolated:
  assumes allowed: "allowed_file fname"
    and saved: "save_upload svc (secure_filename svc fname) st = (Inr temp_input, st1)"
    and ex: "extract_images svc temp_input (secure_filename svc fname) (world st1)
               = (Inr (before @ image_data # after), w0)"
    and pre: "process_images svc before [] (st1\<lparr>world := w0\<rparr>)
               = (Inr done, st2)"
    and det: "extract_text svc image_data (world st2) = (Inr (rs1 @ r # rs2), w1)"
    and tr1: "translate_regions svc rs1 w1 = (ts1, w2)"
    and fail: "translate svc (region_text r) w2 = (Inl e, w3)"
    and tr2: "translate_regions svc rs2 w3 = (ts2, w4)"
    and rm: "remove_text svc image_data (rs1 @ r # rs2) w4 = (Inr cleaned, w5)"
    and rd: "render_text svc cleaned (ts1 @ r # ts2) w5 = (Inr final, w6)"
    and sv: "save_png svc final w6 = (Inr (), w7)"
    and rest: "process_images svc after (done @ [Tmp (next_tmp st2) ''.png''])
                 (st2\<lparr>world := w7,
                     files := (files st2)(Tmp (next_tmp st2) ''.png'' \<mapsto> Png final),
                     next_tmp := Suc (next_tmp st2)\<rparr>)
               = (Inr processed_files, st3)"
  shows "translate_regions svc (rs1 @ r # rs2) w1 = (ts1 @ r # ts2, w4)
       \<and> length ts1 = length rs1 \<and> length ts2 = length rs2
       \<and> map region_bbox (ts1 @ r # ts2) = map region_bbox (rs1 @ r # rs2)
       \<and> process_image svc image_data st2 =
           (Inr (Tmp (next_tmp st2) ''.png''),
            st2\<lparr>world := w7,
                files := (files st2)(Tmp (next_tmp st2) ''.png'' \<mapsto> Png final),
                next_tmp := Suc (next_tmp st2)\<rparr>)
       \<and> fst (process_file svc temp_input (secure_filename svc fname) st1)
           = Inr processed_files
       \<and> is_success (fst (upload_file svc (Some fname) st))"
proof -
  have trs: "translate_regions svc (rs1 @ r # rs2) w1 = (ts1 @ r # ts2, w4)"
    using tr1 fail tr2 by (simp add: translate_regions_append)
  have len1: "length ts1 = length rs1"
    using translate_regions_bbox[of svc rs1 w1] tr1 map_eq_imp_length_eq by fastforce
  have len2: "length ts2 = length rs2"
    using translate_regions_bbox[of svc rs2 w3] tr2 map_eq_imp_length_eq by fastforce
  have geo: "map region_bbox (ts1 @ r # ts2) = map region_bbox (rs1 @ r # rs2)"
    using translate_regions_bbox[of svc "rs1 @ r # rs2" w1] trs by simp
  have img: "process_image svc image_data st2 =
           (Inr (Tmp (next_tmp st2) ''.png''),
            st2\<lparr>world := w7,
                files := (files st2)(Tmp (next_tmp st2) ''.png'' \<mapsto> Png final),
                next_tmp := Suc (next_tmp st2)\<rparr>)"
    using process_image_with_text[OF det _ trs] rm rd sv by (simp add: save_output_eq)
  have pf: "process_file svc temp_input (secure_filename svc fname) st1
              = (Inr processed_files, st3)"
    using ex pre img rest by (simp add: process_file_def process_images_append)
  from process_upload_processed[OF saved pf] have "is_success (fst (process_upload svc fname st))"
    by (auto split: if_splits)
  then have "is_success (fst (upload_file svc (Some fname) st))"
    by (simp add: upload_file_allowed[OF allowed])
  with trs len1 len2 geo img pf show ?thesis by simp
qed

text \<open>
  A run of claim C4: in the upload \<open>one.png\<close> the page has three regions and the
  translation of the second one raises. The renderer receives the first and the third
  region translated and the second with its original text, and the request is answered
  with the processed file.
\<close>

theorem translation_failure_is_isolated_witness:
  "translate demo_services ''two'' 1 = (Inl (Exception ''rate limit''), 2)
   \<and> fst (translate_regions demo_services demo_regions 0) =
       [\<lparr>region_text = ''ar:one'', region_bbox = (0, 0, 10, 10), region_confidence = Some 0.9\<rparr>,
        \<lparr>region_text = ''two'', region_bbox = (0, 20, 10, 10), region_confidence = None\<rparr>,
        \<lparr>region_text = ''ar:three'', region_bbox = (0, 40, 10, 10),
          region_confidence = Some 0.5\<rparr>]
   \<and> fst (process_file demo_services (Tmp 0 ''_one.png'') ''one.png''
          (snd (save_upload demo_services ''one.png'' demo_state)))
       = Inr [Tmp 1 ''.png'']
   \<and> is_success (fst (upload_file demo_services (Some ''one.png'') demo_state))"
  using translation_failure_is_isolated[where svc = demo_services and fname = "''one.png''"
      and st = demo_state and temp_input = "Tmp 0 ''_one.png''"
      and ?st1.0 = "snd (save_upload demo_services ''one.png'' demo_state)"
      and before = "[]" and image_data = "Page ''text''" and after = "[]" and ?w0.0 = 0
      and ?done = "[]"
      and ?st2.0 = "snd (save_upload demo_services ''one.png'' demo_state)"
      and ?rs1.0 = "[demo_regions ! 0]" and r = "demo_regions ! 1"
      and ?rs2.0 = "[demo_regions ! 2]" and ?w1.0 = 0
      and ?ts1.0 = "[\<lparr>region_text = ''ar:one'', region_bbox = (0, 0, 10, 10),
                       region_confidence = Some 0.9\<rparr>]"
      and ?w2.0 = 1 and e = "Exception ''rate limit''" and ?w3.0 = 2
      and ?ts2.0 = "[\<lparr>region_text = ''ar:three'', region_bbox = (0, 40, 10, 10),
                       region_confidence = Some 0.5\<rparr>]"
      and ?w4.0 = 3
      and cleaned = "Cleaned (Page ''text'') demo_regions" and ?w5.0 = 3
      and final = "Rendered (Cleaned (Page ''text'') demo_regions)
         [\<lparr>region_text = ''ar:one'', region_bbox = (0, 0, 10, 10),
            region_confidence = Some 0.9\<rparr>,
          \<lparr>region_text = ''two'', region_bbox = (0, 20, 10, 10), region_confidence = None\<rparr>,
          \<lparr>region_text = ''ar:three'', region_bbox = (0, 40, 10, 10),
            region_confidence = Some 0.5\<rparr>]"
      and ?w6.0 = 3 and ?w7.0 = 3
      and processed_files = "[Tmp 1 ''.png'']"
      and ?st3.0 = "snd (process_file demo_services (Tmp 0 ''_one.png'') ''one.png''
          (snd (save_upload demo_services ''one.png'' demo_state)))"]
  by (simp add: demo_defs demo_allowed file_ops save_output_eq process_file_def
      process_image_def)

text \<open>
  Claim C2, as amended. For every input file, when inpainting or rendering raises while
  one image is processed, the loop is left at once: \<open>process_file\<close> raises that
  exception again, no list of processed files is returned, the images after the failing
  one are not processed, and the request is answered with the flashed message
  \<open>Error processing file: ...\<close> and a redirect.
\<close>

theorem inpaint_or_render_failure_fails_request:
  assumes allowed: "allowed_file fname"
    and saved: "save_upload svc (secure_filename svc fname) st = (Inr temp_input, st1)"
    and ex: "extract_images svc temp_input (secure_filename svc fname) (world st1)
               = (Inr (before @ image_data # after), w0)"
    and pre: "process_images svc before [] (st1\<lparr>world := w0\<rparr>)
               = (Inr done, st2)"
    and det: "extract_text svc image_data (world st2) = (Inr text_regions, w1)"
    and nonempty: "text_regions \<noteq> []"
    and tr: "translate_regions svc text_regions w1 = (translated_regions, w2)"
    and fail: "remove_text svc image_data text_regions w2 = (Inl e, w3)
               \<or> (\<exists>cleaned w. remove_text svc image_data text_regions w2 = (Inr cleaned, w)
                      \<and> render_text svc cleaned translated_regions w = (Inl e, w3))"
  shows "process_image svc image_data st2 = (Inl e, st2\<lparr>world := w3\<rparr>)
       \<and> process_file svc temp_input (secure_filename svc fname) st1
           = (Inl e, st2\<lparr>world := w3\<rparr>)
       \<and> upload_file svc (Some fname) st =
           (Redirect_index [''Error processing file: '' @ message e],
            st2\<lparr>world := w3, files := (files st2)(temp_input := None)\<rparr>)"
proof -
  have img: "process_image svc image_data st2 = (Inl e, st2\<lparr>world := w3\<rparr>)"
    using process_image_with_text[OF det nonempty tr] fail by auto
  have pf: "process_file svc temp_input (secure_filename svc fname) st1
              = (Inl e, st2\<lparr>world := w3\<rparr>)"
    using ex pre img by (simp add: process_file_def process_images_append)
  have up: "upload_file svc (Some fname) st = process_upload svc fname st"
    using upload_file_allowed[OF allowed] .
  from process_upload_failed[OF saved pf] img pf
  show ?thesis by (simp add: up)
qed

text \<open>
  A run of claim C2 as amended: in the upload \<open>bad.zip\<close> the renderer raises on the
  second of three pages. The request ends with the error message, and the translator
  has been called three times, for the regions of the second page only: the third page
  was not processed.
\<close>

theorem inpaint_or_render_failure_fails_request_witness:
  "fst (render_text demo_services (Cleaned (Page ''broken'') demo_regions)
          (fst (translate_regions demo_services demo_regions 0)) 3)
     = Inl (Exception ''render failed'')
   \<and> fst (upload_file demo_services (Some ''bad.zip'') demo_state)
       = Redirect_index [''Error processing file: render failed'']
   \<and> world (snd (upload_file demo_services (Some ''bad.zip'') demo_state)) = 3"
  using inpaint_or_render_failure_fails_request[where svc = demo_services
      and fname = "''bad.zip''" and st = demo_state and temp_input = "Tmp 0 ''_bad.zip''"
      and ?st1.0 = "snd (save_upload demo_services ''bad.zip'' demo_state)"
      and before = "[Page ''blank'']" and image_data = "Page ''broken''"
      and after = "[Page ''text'']" and ?w0.0 = 0 and ?done = "[Tmp 1 ''.png'']"
      and ?st2.0 = "snd (process_image demo_services (Page ''blank'')
          (snd (save_upload demo_services ''bad.zip'' demo_state)))"
      and text_regions = demo_regions and ?w1.0 = 0
      and translated_regions = "fst (translate_regions demo_services demo_regions 0)"
      and ?w2.0 = 3 and e = "Exception ''render failed''" and ?w3.0 = 3]
  by (simp add: demo_defs demo_allowed file_ops save_output_eq process_image_def)

text \<open>
  Claim C2 as stated fails: the pages of \<open>two.zip\<close> alone are processed and sent, but
  in \<open>bad.zip\<close>, where a page on which the renderer raises stands between them, the
  request is not answered with the outputs of the two siblings; it ends with the error.
\<close>

theorem failed_image_is_dropped_counterexample:
  "fst (render_text demo_services (Cleaned (Page ''broken'') demo_regions)
          (fst (translate_regions demo_services demo_regions 0)) 3)
     = Inl (Exception ''render failed'')
   \<and> is_success (fst (upload_file demo_services (Some ''two.zip'') demo_state))
   \<and> \<not> is_success (fst (upload_file demo_services (Some ''bad.zip'') demo_state))
   \<and> fst (upload_file demo_services (Some ''bad.zip'') demo_state)
       = Redirect_index [''Error processing file: render failed'']"
  by (simp add: demo_defs demo_allowed file_ops save_output_eq process_file_def
      process_image_def upload_file_def process_upload_def process_and_respond_def)


section \<open>The empty bundle and the files left on disk\<close>

text \<open>
  The handler itself has no test for an empty list: were \<open>process_file\<close> to return
  one, the branch written for several files would answer with an archive without
  entries.
\<close>

lemma empty_bundle_response:
  assumes saved: "save_upload svc (secure_filename svc fname) st = (Inr temp_input, st1)"
    and pf: "process_file svc temp_input (secure_filename svc fname) st1 = (Inr [], st2)"
  shows "fst (process_upload svc fname st) =
           Send_zip [] (''translated_'' @ stem (secure_filename svc fname) @ ''.zip'')"
  using process_upload_processed[OF saved pf] by (auto simp: entry_names_def)





text \<open>In a well-numbered state no file carries a serial number yet to be given out.\<close>

lemma wf_state_fresh:
  assumes "wf_state st" "next_tmp st \<le> tmp_id p"
  shows "files st p = None"
proof (rule ccontr)
  assume "files st p \<noteq> None"
  then have "p \<in> dom (files st)" by auto
  with assms(1) have "tmp_id p < next_tmp st" by (simp add: wf_state_def)
  with assms(2) show False by simp
qed

text \<open>A loop that ends without an exception changes no file but the ones it returns.\<close>

lemma process_images_only_adds:
  assumes "process_images svc images acc st = (Inr ps, st')"
  shows "q \<notin> set ps \<Longrightarrow> files st' q = files st q"
  using assms
proof (induction images arbitrary: acc st)
  case Nil
  then show ?case by simp
next
  case (Cons i images)
  obtain r1 st1 where step: "process_image svc i st = (r1, st1)"
    by (cases "process_image svc i st")
  with Cons.prems obtain p where r1: "r1 = Inr p"
    and rest: "process_images svc images (acc @ [p]) st1 = (Inr ps, st')"
    by (cases r1) auto
  from process_images_result[OF rest] have "p \<in> set ps" by auto
  with Cons.prems(1) have "q \<noteq> p" by auto
  moreover from process_image_result[OF step[unfolded r1]]
  obtain im where "files st1 = (files st)(p \<mapsto> Png im)" by auto
  ultimately have "files st1 q = files st q" by simp
  with Cons.IH[OF Cons.prems(1) rest] show ?case by simp
qed

lemma process_file_only_adds:
  assumes "process_file svc file_path filename st = (Inr ps, st')"
    and "q \<notin> set ps"
  shows "files st' q = files st q"
  using assms unfolding process_file_def
  by (auto split: prod.splits sum.splits dest: process_images_only_adds)

text \<open>
  The archive branch, taken for every list that has not exactly one element, leaves the
  disk as it was before the request: the processed files and the input file are gone.
\<close>

lemma archive_branch_leaves_no_file:
  assumes wf: "wf_state st"
    and saved: "save_upload svc (secure_filename svc fname) st = (Inr temp_input, st1)"
    and pf: "process_file svc temp_input (secure_filename svc fname) st1
               = (Inr ps, st2)"
    and many: "length ps \<noteq> 1"
  shows "files (snd (process_upload svc fname st)) = files st"
proof (rule ext)
  fix q
  have ti: "temp_input = Tmp (next_tmp st) (''_'' @ secure_filename svc fname)"
    "next_tmp st1 = Suc (next_tmp st)"
    "files st1 = (files st)(temp_input \<mapsto> Uploaded)"
    using save_upload_result[OF saved] by auto
  have fresh: "\<And>p. next_tmp st \<le> tmp_id p \<Longrightarrow> files st p = None"
    using wf_state_fresh[OF wf] .
  from process_upload_processed[OF saved pf] many
  have fin: "files (snd (process_upload svc fname st))
               = (files st2 |` (- set ps))(temp_input := None)"
    by auto
  show "files (snd (process_upload svc fname st)) q = files st q"
  proof (cases "q = temp_input")
    case True
    then show ?thesis using fin fresh[of temp_input] ti(1) by simp
  next
    case False
    show ?thesis
    proof (cases "q \<in> set ps")
      case True
      with process_file_result[OF pf] ti(2) have "next_tmp st \<le> tmp_id q" by auto
      with fresh True fin False show ?thesis by simp
    next
      case notin: False
      from process_file_only_adds[OF pf notin] ti(3) False
      have "files st2 q = files st q" by simp
      with fin False notin show ?thesis by simp
    qed
  qed
qed

text \<open>
  The single-file branch leaves the processed file, which did not exist before the
  request, on disk.
\<close>

lemma single_file_branch_leaves_output:
  assumes wf: "wf_state st"
    and saved: "save_upload svc (secure_filename svc fname) st = (Inr temp_input, st1)"
    and pf: "process_file svc temp_input (secure_filename svc fname) st1
               = (Inr [p], st2)"
  shows "files st p = None \<and> (\<exists>img. files (snd (process_upload svc fname st)) p = Some (Png img))"
proof -
  have ti: "next_tmp st1 = Suc (next_tmp st)"
    using save_upload_result[OF saved] by auto
  from process_file_result[OF pf] ti obtain img where
    p: "next_tmp st \<le> tmp_id p" "files st2 p = Some (Png img)" by auto
  have "files st p = None" using wf_state_fresh[OF wf p(1)] .
  moreover have "p \<noteq> temp_input"
    using input_file_kept_by_processing[OF saved pf] p(2) by auto
  ultimately show ?thesis
    using process_upload_processed[OF saved pf] p(2) by auto
qed

text \<open>
  When processing raises, only the input file is removed: whatever the loop had written
  before the exception stays.
\<close>

lemma failed_processing_leaves_outputs:
  assumes saved: "save_upload svc (secure_filename svc fname) st = (Inr temp_input, st1)"
    and pf: "process_file svc temp_input (secure_filename svc fname) st1
               = (Inl e, st2)"
    and "q \<noteq> temp_input"
  shows "files (snd (process_upload svc fname st)) q = files st2 q"
  using process_upload_failed[OF saved pf] assms(3) by simp

text \<open>
  Claim C8, evaluated where it fails. After the upload \<open>one.png\<close> has been answered
  with its single processed file, that temporary file, made during the request, is still
  on disk. After the upload \<open>bad.zip\<close> has ended with an error, the file saved for its
  first page is still on disk. The archive branch does remove what it made: after
  \<open>two.zip\<close> no temporary file is left.
\<close>

theorem processed_files_left_behind:
  "files demo_state (Tmp 1 ''.png'') = None
   \<and> fst (upload_file demo_services (Some ''one.png'') demo_state)
       = Send_file (Tmp 1 ''.png'') ''translated_one.png''
   \<and> files (snd (upload_file demo_services (Some ''one.png'') demo_state)) (Tmp 1 ''.png'')
       \<noteq> None
   \<and> fst (upload_file demo_services (Some ''bad.zip'') demo_state)
       = Redirect_index [''Error processing file: render failed'']
   \<and> files (snd (upload_file demo_services (Some ''bad.zip'') demo_state)) (Tmp 1 ''.png'')
       = Some (Png (Page ''blank''))
   \<and> files (snd (upload_file demo_services (Some ''two.zip'') demo_state)) = Map.empty"
  by (simp add: demo_defs demo_allowed file_ops save_output_eq process_file_def
      process_image_def upload_file_def process_upload_def process_and_respond_def
      rsplit1_def restrict_map_def)

end
